theory Spec2Isabelle
  imports Complex_Main "HOL-Library.AList" "HOL-Library.Char_ord" "HOL-Library.List_Lexorder"
begin

section \<open>The calculator service\<close>

text \<open>
  Python's \<open>float\<close> is modelled by \<^typ>\<open>real\<close>: the arithmetic is exact, and the
  special values of IEEE 754 (NaN, the infinities, the signed zero) and rounding are not
  represented. Everything below that speaks about numbers is a statement about this
  idealisation.
\<close>

subsection \<open>app/calculator.py\<close>

text \<open>
  \<open>class DivisionByZeroError(Exception)\<close> carries a message; its constructor's default
  argument is the fixed text.
\<close>

datatype calc_error = DivisionByZeroError string

definition default_message :: string where
  "default_message = ''Division by zero is not allowed''"


definition add :: "real \<Rightarrow> real \<Rightarrow> real" where
  "add a b = a + b"

definition subtract :: "real \<Rightarrow> real \<Rightarrow> real" where
  "subtract a b = a - b"

definition multiply :: "real \<Rightarrow> real \<Rightarrow> real" where
  "multiply a b = a * b"

text \<open>\<open>divide\<close> raises \<open>DivisionByZeroError()\<close>, with the default message, when \<open>b == 0\<close>.\<close>

definition divide_op :: "real \<Rightarrow> real \<Rightarrow> calc_error + real" where
  "divide_op a b = (if b = 0 then Inl (DivisionByZeroError default_message) else Inr (a / b))"

text \<open>
  The four operations of the module under one name, each with the outcome of a call:
  the three functions without a \<open>raise\<close> always return.
\<close>

datatype operation = Add | Subtract | Multiply | Divide

fun call :: "operation \<Rightarrow> real \<Rightarrow> real \<Rightarrow> calc_error + real" where
  "call Add a b = Inr (add a b)"
| "call Subtract a b = Inr (subtract a b)"
| "call Multiply a b = Inr (multiply a b)"
| "call Divide a b = divide_op a b"

subsection \<open>app/main.py\<close>

text \<open>
  The request and response models of the API. A request that FastAPI has validated
  holds two numbers. A handler either returns a response model, which the framework
  sends with status 200, or raises \<open>HTTPException(status_code, detail)\<close>, which the
  framework sends with that status and the body \<open>{"detail": detail}\<close>.
\<close>

datatype OperationRequest = OperationRequest real real

datatype response_model = OperationResponse real | HealthResponse string

datatype http_exception = HTTPException nat string




definition health_check :: "http_exception + response_model" where
  "health_check = Inr (HealthResponse ''ok'')"

fun add_numbers :: "OperationRequest \<Rightarrow> http_exception + response_model" where
  "add_numbers (OperationRequest a b) = Inr (OperationResponse (add a b))"

fun subtract_numbers :: "OperationRequest \<Rightarrow> http_exception + response_model" where
  "subtract_numbers (OperationRequest a b) = Inr (OperationResponse (subtract a b))"

fun multiply_numbers :: "OperationRequest \<Rightarrow> http_exception + response_model" where
  "multiply_numbers (OperationRequest a b) = Inr (OperationResponse (multiply a b))"


section \<open>The metrics collector (metrics/main.py)\<close>

subsection \<open>Data and the outside world\<close>

text \<open>
  An object of the hosting API's JSON, restricted to the keys the collector reads. A key
  read with \<open>obj[key]\<close> is a field; a key read with \<open>obj.get(key)\<close> is an optional field,
  \<open>None\<close> when the key is absent or its value is \<open>null\<close>. \<open>conclusion\<close> is \<open>null\<close> for a run
  that has not finished. \<open>user_login\<close> stands for \<open>obj.get("user", {}).get("login")\<close>.
\<close>

record api_object =
  name :: "string option"
  conclusion :: "string option"
  created_at :: string
  run_started_at :: "string option"
  updated_at :: "string option"
  merged_at :: "string option"
  user_login :: "string option"

text \<open>The groups of the report, and the report.\<close>

record dora_metrics =
  deployments_total :: nat
  deployments_successful :: nat
  deployments_failed :: nat
  change_failure_rate_percent :: real
  mttr_hours :: "real option"

record pr_metrics =
  pr_throughput :: nat
  pr_lead_time_avg_hours :: "real option"
  pr_lead_time_median_hours :: "real option"

record ci_metrics =
  ci_runs_total :: nat
  ci_success_rate_percent :: real
  ci_avg_duration_minutes :: "real option"

record security_metrics =
  security_runs_total :: nat
  security_success_rate_percent :: real
  security_last_conclusion :: "string option"

record dependabot_metrics =
  dependabot_prs_open :: nat
  dependabot_prs_merged :: nat

record deploy_metrics =
  deploy_avg_duration_minutes :: "real option"

record all_metrics =
  generated_at :: string
  report_window_days :: int
  repository :: string
  dora :: dora_metrics
  pull_requests :: pr_metrics
  ci_health :: ci_metrics
  deploy_health :: deploy_metrics
  security :: security_metrics
  dependabot :: dependabot_metrics

text \<open>What \<open>print\<close> writes: a fixed line, or \<open>json.dumps\<close> of the report.\<close>

datatype printed_line = Line string | Dump all_metrics

datatype error = HTTPError nat | ValueError

datatype pval = PStr string | PInt int

type_synonym params = "(string \<times> pval) list"

text \<open>A request is its URL, its headers and its query parameters.\<close>

type_synonym request = "string \<times> (string \<times> string) list \<times> params"

text \<open>
  What \<open>requests.get\<close> followed by \<open>raise_for_status()\<close> and \<open>json()\<close> comes to: either a
  status for which \<open>raise_for_status\<close> raises, or the decoded body, a list of objects.
\<close>

datatype http_outcome = ErrorStatus nat | Body "api_object list"

type_synonym exchange = "request \<times> http_outcome"

text \<open>
  The world outside the repository, deterministic: what the API answers and what the
  clock shows are functions of the exchanges made so far. Times are seconds on the UTC
  time line. The library functions the collector calls are taken as they come:
  \<open>datetime.fromisoformat\<close>, \<open>strftime('%Y-%m-%d')\<close>, \<open>isoformat\<close>, \<open>int\<close> on a string,
  and the process environment \<open>os.environ\<close>.
\<close>

record env =
  respond :: "exchange list \<Rightarrow> request \<Rightarrow> http_outcome"
  utcnow :: "exchange list \<Rightarrow> real"
  fromisoformat :: "string \<Rightarrow> real"
  strftime_ymd :: "real \<Rightarrow> string"
  isoformat :: "real \<Rightarrow> string"
  int_of_str :: "string \<Rightarrow> int option"
  environ :: "string \<Rightarrow> string option"

text \<open>\<open>GitHubMetricsCollector\<close>: the fields set by \<open>__init__\<close> from the environment.\<close>

record collector =
  token :: string
  repo :: string
  window_days :: int

definition environ_get :: "env \<Rightarrow> string \<Rightarrow> string \<Rightarrow> string" where
  "environ_get e key dflt = (case environ e key of None \<Rightarrow> dflt | Some v \<Rightarrow> v)"

definition init :: "env \<Rightarrow> error + collector" where
  "init e =
     (case int_of_str e (environ_get e ''METRICS_WINDOW_DAYS'' ''30'') of
        None \<Rightarrow> Inl ValueError
      | Some d \<Rightarrow>
          Inr \<lparr>token = environ_get e ''GITHUB_TOKEN'' [],
               repo = environ_get e ''GITHUB_REPOSITORY'' [],
               window_days = d\<rparr>)"

definition base_url :: string where
  "base_url = ''https://api.github.com''"

definition headers :: "collector \<Rightarrow> (string \<times> string) list" where
  "headers self =
     [(''Authorization'', ''Bearer '' @ token self),
      (''Accept'', ''application/vnd.github+json''),
      (''X-GitHub-Api-Version'', ''2022-11-28'')]"

subsection \<open>Fetching\<close>

text \<open>
  \<open>_get\<close>: one GET. The state is the list of exchanges so far; the call appends its own.
  An error status raises \<open>HTTPError\<close>.
\<close>

definition get ::
  "env \<Rightarrow> collector \<Rightarrow> string \<Rightarrow> params \<Rightarrow> exchange list
     \<Rightarrow> (error + api_object list) \<times> exchange list" where
  "get e self endpoint ps tr =
     (let rq = (base_url @ endpoint, headers self, ps);
          out = respond e tr rq
      in (case out of ErrorStatus c \<Rightarrow> Inl (HTTPError c) | Body js \<Rightarrow> Inr js,
          tr @ [(rq, out)]))"

text \<open>
  \<open>params["page"]\<close>. \<open>_get_paginated\<close> sets the key to 1 before its loop, so the loop
  always finds an integer there; the other case stands for Python's \<open>KeyError\<close> and
  does not arise.
\<close>

definition page_of :: "params \<Rightarrow> int" where
  "page_of ps = (case map_of ps ''page'' of Some (PInt p) \<Rightarrow> p | _ \<Rightarrow> 0)"

text \<open>
  The \<open>while True\<close> loop of \<open>_get_paginated\<close>. The dictionary \<open>params\<close> and the list
  \<open>all_items\<close> are the loop's variables.
\<close>

function get_paginated_loop ::
  "env \<Rightarrow> collector \<Rightarrow> string \<Rightarrow> params \<Rightarrow> api_object list \<Rightarrow> exchange list
     \<Rightarrow> (error + api_object list) \<times> exchange list" where
  "get_paginated_loop e self endpoint ps all_items tr =
     (case get e self endpoint ps tr of
        (Inl err, tr') \<Rightarrow> (Inl err, tr')
      | (Inr items, tr') \<Rightarrow>
          if items = [] then (Inr all_items, tr')
          else if length items < 100 then (Inr (all_items @ items), tr')
          else
            (let ps' = AList.update ''page'' (PInt (page_of ps + 1)) ps
             in if page_of ps' > 10 then (Inr (all_items @ items), tr')
                else get_paginated_loop e self endpoint ps' (all_items @ items) tr'))"
  by pat_completeness auto
termination
  by (relation "measure (\<lambda>(e, self, endpoint, ps, all_items, tr). nat (11 - page_of ps))")
     (auto simp: page_of_def AList.update_conv')

declare get_paginated_loop.simps [simp del]

definition get_paginated ::
  "env \<Rightarrow> collector \<Rightarrow> string \<Rightarrow> params \<Rightarrow> exchange list
     \<Rightarrow> (error + api_object list) \<times> exchange list" where
  "get_paginated e self endpoint ps tr =
     get_paginated_loop e self endpoint
       (AList.update ''page'' (PInt 1) (AList.update ''per_page'' (PInt 100) ps)) [] tr"

definition get_window_start :: "env \<Rightarrow> collector \<Rightarrow> exchange list \<Rightarrow> real" where
  "get_window_start e self tr = utcnow e tr - of_int (window_days self) * 86400"

text \<open>\<open>_parse_datetime\<close>: every \<open>Z\<close> becomes \<open>+00:00\<close>, then the library parses.\<close>

definition replace_Z :: "string \<Rightarrow> string" where
  "replace_Z s = concat (map (\<lambda>c. if c = CHR ''Z'' then ''+00:00'' else [c]) s)"

definition parse_datetime :: "env \<Rightarrow> string \<Rightarrow> real" where
  "parse_datetime e dt_str = fromisoformat e (replace_Z dt_str)"

text \<open>\<open>str.lower\<close>, on the letters of ASCII; other characters are left as they are.\<close>

definition lower_char :: "char \<Rightarrow> char" where
  "lower_char c =
     (if CHR ''A'' \<le> c \<and> c \<le> CHR ''Z'' then char_of (of_char c + (32::nat)) else c)"

definition lower :: "string \<Rightarrow> string" where
  "lower s = map lower_char s"

definition get_workflow_runs ::
  "env \<Rightarrow> collector \<Rightarrow> string \<Rightarrow> exchange list
     \<Rightarrow> (error + api_object list) \<times> exchange list" where
  "get_workflow_runs e self workflow_name tr =
     (let endpoint = ''/repos/'' @ repo self @ ''/actions/runs'';
          ps = [(''created'', PStr (''>='' @ strftime_ymd e (get_window_start e self tr)))]
      in case get_paginated e self endpoint ps tr of
           (Inl err, tr') \<Rightarrow> (Inl err, tr')
         | (Inr all_runs, tr') \<Rightarrow>
             (Inr (filter (\<lambda>run. lower (case name run of None \<Rightarrow> [] | Some n \<Rightarrow> n)
                                   = lower workflow_name) all_runs),
              tr'))"

subsection \<open>Numbers of the report\<close>

text \<open>
  \<open>round(x, 2)\<close> on exact numbers: the nearest multiple of 0.01, a tie going to the
  even one.
\<close>

definition round_half_even :: "real \<Rightarrow> int" where
  "round_half_even x =
     (let f = \<lfloor>x\<rfloor>; d = x - of_int f
      in if d < 1 / 2 then f else if 1 / 2 < d then f + 1 else if even f then f else f + 1)"

definition round2 :: "real \<Rightarrow> real" where
  "round2 x = of_int (round_half_even (x * 100)) / 100"

text \<open>\<open>round(v, 2) if v else None\<close>: the guard is false for \<open>None\<close> and for zero.\<close>

definition rounded_or_none :: "real option \<Rightarrow> real option" where
  "rounded_or_none v = (case v of None \<Rightarrow> None | Some x \<Rightarrow> if x \<noteq> 0 then Some (round2 x) else None)"

text \<open>\<open>sum(1 for r in runs if r["conclusion"] == c)\<close>\<close>

definition count_conclusion :: "string \<Rightarrow> api_object list \<Rightarrow> nat" where
  "count_conclusion c runs = length (filter (\<lambda>r. conclusion r = Some c) runs)"

text \<open>\<open>sum(xs) / len(xs) if xs else None\<close>\<close>

definition average :: "real list \<Rightarrow> real option" where
  "average xs = (if xs \<noteq> [] then Some (sum_list xs / real (length xs)) else None)"

text \<open>\<open>sorted(lead_times)[len(lead_times) // 2] if lead_times else None\<close>\<close>

definition median_lead_time :: "real list \<Rightarrow> real option" where
  "median_lead_time lead_times =
     (if lead_times \<noteq> [] then Some (sort lead_times ! (length lead_times div 2)) else None)"

subsection \<open>collect\_dora\_metrics\<close>

text \<open>
  The inner loop \<open>for next_run in sorted_runs[i + 1:]\<close>: the value given to \<open>mttr_hours\<close>
  at the first successful run, \<open>None\<close> when the loop ends without one.
\<close>

fun next_success :: "env \<Rightarrow> api_object \<Rightarrow> api_object list \<Rightarrow> real option" where
  "next_success e run [] = None"
| "next_success e run (next_run # rest) =
     (if conclusion next_run = Some ''success''
      then Some ((parse_datetime e (created_at next_run) - parse_datetime e (created_at run)) / 3600)
      else next_success e run rest)"

text \<open>
  The outer loop \<open>for i, run in enumerate(sorted_runs)\<close>: it leaves at the first failed
  run whose inner loop has set \<open>mttr_hours\<close>, and goes on to the next run otherwise.
\<close>

fun mttr_scan :: "env \<Rightarrow> api_object list \<Rightarrow> real option" where
  "mttr_scan e [] = None"
| "mttr_scan e (run # rest) =
     (if conclusion run = Some ''failure''
      then (case next_success e run rest of
              Some m \<Rightarrow> Some m
            | None \<Rightarrow> mttr_scan e rest)
      else mttr_scan e rest)"

text \<open>The local variable \<open>mttr_hours\<close> after the loops, before the report rounds it.\<close>

definition mttr_proxy :: "env \<Rightarrow> api_object list \<Rightarrow> real option" where
  "mttr_proxy e cd_runs = mttr_scan e (sort_key created_at cd_runs)"

text \<open>The body of \<open>collect_dora_metrics\<close> after its fetch.\<close>

definition dora_of_runs :: "env \<Rightarrow> api_object list \<Rightarrow> dora_metrics" where
  "dora_of_runs e cd_runs =
     (let total = length cd_runs;
          successful = count_conclusion ''success'' cd_runs;
          failed = count_conclusion ''failure'' cd_runs;
          change_failure_rate = (if total > 0 then real failed / real total * 100 else 0)
      in \<lparr>deployments_total = total,
          deployments_successful = successful,
          deployments_failed = failed,
          change_failure_rate_percent = round2 change_failure_rate,
          mttr_hours = rounded_or_none (mttr_proxy e cd_runs)\<rparr>)"

definition collect_dora_metrics ::
  "env \<Rightarrow> collector \<Rightarrow> exchange list \<Rightarrow> (error + dora_metrics) \<times> exchange list" where
  "collect_dora_metrics e self tr =
     (case get_workflow_runs e self ''CD - Azure Web App'' tr of
        (Inl err, tr') \<Rightarrow> (Inl err, tr')
      | (Inr cd_runs, tr') \<Rightarrow> (Inr (dora_of_runs e cd_runs), tr'))"

subsection \<open>collect\_pr\_metrics\<close>

text \<open>The condition of the comprehension that selects \<open>merged_prs\<close>.\<close>

definition merged_in_window :: "env \<Rightarrow> real \<Rightarrow> api_object \<Rightarrow> bool" where
  "merged_in_window e window_start pr =
     (case merged_at pr of
        None \<Rightarrow> False
      | Some m \<Rightarrow> m \<noteq> [] \<and> parse_datetime e m \<ge> window_start)"

text \<open>
  One pass of the loop that fills \<open>lead_times\<close>. Every element of \<open>merged_prs\<close> has a
  \<open>merged_at\<close>, so the loop appends once for each.
\<close>

definition lead_time :: "env \<Rightarrow> api_object \<Rightarrow> real option" where
  "lead_time e pr =
     (case merged_at pr of
        None \<Rightarrow> None
      | Some m \<Rightarrow> Some ((parse_datetime e m - parse_datetime e (created_at pr)) / 3600))"

definition lead_times_of :: "env \<Rightarrow> api_object list \<Rightarrow> real list" where
  "lead_times_of e merged_prs = List.map_filter (lead_time e) merged_prs"

definition merged_prs_of :: "env \<Rightarrow> real \<Rightarrow> api_object list \<Rightarrow> api_object list" where
  "merged_prs_of e window_start prs = filter (merged_in_window e window_start) prs"

text \<open>The body of \<open>collect_pr_metrics\<close> after its fetch.\<close>

definition pr_of_pulls :: "env \<Rightarrow> real \<Rightarrow> api_object list \<Rightarrow> pr_metrics" where
  "pr_of_pulls e window_start prs =
     (let merged_prs = merged_prs_of e window_start prs;
          lead_times = lead_times_of e merged_prs;
          avg_lead_time = average lead_times;
          median = median_lead_time lead_times
      in \<lparr>pr_throughput = length merged_prs,
          pr_lead_time_avg_hours = rounded_or_none avg_lead_time,
          pr_lead_time_median_hours = rounded_or_none median\<rparr>)"

definition collect_pr_metrics ::
  "env \<Rightarrow> collector \<Rightarrow> exchange list \<Rightarrow> (error + pr_metrics) \<times> exchange list" where
  "collect_pr_metrics e self tr =
     (let endpoint = ''/repos/'' @ repo self @ ''/pulls'';
          ps = [(''state'', PStr ''closed''), (''sort'', PStr ''updated''),
                (''direction'', PStr ''desc'')]
      in case get_paginated e self endpoint ps tr of
           (Inl err, tr') \<Rightarrow> (Inl err, tr')
         | (Inr prs, tr') \<Rightarrow> (Inr (pr_of_pulls e (get_window_start e self tr') prs), tr'))"

subsection \<open>collect\_ci\_metrics, collect\_security\_metrics\<close>

text \<open>
  One pass of a loop that fills \<open>durations\<close>: minutes from \<open>run_started_at\<close> to
  \<open>updated_at\<close>, when both are there.
\<close>

definition duration :: "env \<Rightarrow> api_object \<Rightarrow> real option" where
  "duration e run =
     (case (run_started_at run, updated_at run) of
        (Some s, Some u) \<Rightarrow>
          if s \<noteq> [] \<and> u \<noteq> []
          then Some ((parse_datetime e u - parse_datetime e s) / 60)
          else None
      | _ \<Rightarrow> None)"

definition ci_durations :: "env \<Rightarrow> api_object list \<Rightarrow> real list" where
  "ci_durations e ci_runs = List.map_filter (duration e) ci_runs"

definition ci_of_runs :: "env \<Rightarrow> api_object list \<Rightarrow> ci_metrics" where
  "ci_of_runs e ci_runs =
     (let total = length ci_runs;
          successful = count_conclusion ''success'' ci_runs;
          success_rate = (if total > 0 then real successful / real total * 100 else 0);
          durations = ci_durations e ci_runs;
          avg_duration = average durations
      in \<lparr>ci_runs_total = total,
          ci_success_rate_percent = round2 success_rate,
          ci_avg_duration_minutes = rounded_or_none avg_duration\<rparr>)"

definition collect_ci_metrics ::
  "env \<Rightarrow> collector \<Rightarrow> exchange list \<Rightarrow> (error + ci_metrics) \<times> exchange list" where
  "collect_ci_metrics e self tr =
     (case get_workflow_runs e self ''CI'' tr of
        (Inl err, tr') \<Rightarrow> (Inl err, tr')
      | (Inr ci_runs, tr') \<Rightarrow> (Inr (ci_of_runs e ci_runs), tr'))"

text \<open>
  \<open>sorted(runs, key=created_at, reverse=True)\<close>: descending, runs of one key in their
  first order.
\<close>

definition sorted_reverse :: "api_object list \<Rightarrow> api_object list" where
  "sorted_reverse runs = rev (sort_key created_at (rev runs))"

definition security_of_runs :: "api_object list \<Rightarrow> security_metrics" where
  "security_of_runs security_runs =
     (let total = length security_runs;
          successful = count_conclusion ''success'' security_runs;
          success_rate = (if total > 0 then real successful / real total * 100 else 0);
          last_conclusion =
            (case sorted_reverse security_runs of [] \<Rightarrow> None | r # _ \<Rightarrow> conclusion r)
      in \<lparr>security_runs_total = total,
          security_success_rate_percent = round2 success_rate,
          security_last_conclusion = last_conclusion\<rparr>)"

definition collect_security_metrics ::
  "env \<Rightarrow> collector \<Rightarrow> exchange list \<Rightarrow> (error + security_metrics) \<times> exchange list" where
  "collect_security_metrics e self tr =
     (case get_workflow_runs e self ''Security'' tr of
        (Inl err, tr') \<Rightarrow> (Inl err, tr')
      | (Inr security_runs, tr') \<Rightarrow> (Inr (security_of_runs security_runs), tr'))"

subsection \<open>collect\_dependabot\_metrics, collect\_deploy\_duration\_metrics\<close>

definition count_login :: "api_object list \<Rightarrow> nat" where
  "count_login prs = length (filter (\<lambda>pr. user_login pr = Some ''dependabot[bot]'') prs)"

definition collect_dependabot_metrics ::
  "env \<Rightarrow> collector \<Rightarrow> exchange list \<Rightarrow> (error + dependabot_metrics) \<times> exchange list" where
  "collect_dependabot_metrics e self tr =
     (let endpoint = ''/repos/'' @ repo self @ ''/pulls'';
          window_start = get_window_start e self tr
      in case get_paginated e self endpoint [(''state'', PStr ''open'')] tr of
           (Inl err, tr1) \<Rightarrow> (Inl err, tr1)
         | (Inr open_prs, tr1) \<Rightarrow>
             (case get_paginated e self endpoint
                     [(''state'', PStr ''closed''), (''sort'', PStr ''updated''),
                      (''direction'', PStr ''desc'')] tr1 of
                (Inl err, tr2) \<Rightarrow> (Inl err, tr2)
              | (Inr closed_prs, tr2) \<Rightarrow>
                  (Inr \<lparr>dependabot_prs_open = count_login open_prs,
                        dependabot_prs_merged =
                          count_login (merged_prs_of e window_start closed_prs)\<rparr>,
                   tr2)))"

text \<open>The loop of \<open>collect_deploy_duration_metrics\<close>: successful runs only.\<close>

definition deploy_durations :: "env \<Rightarrow> api_object list \<Rightarrow> real list" where
  "deploy_durations e cd_runs =
     List.map_filter
       (\<lambda>run. if conclusion run = Some ''success'' then duration e run else None) cd_runs"

definition deploy_of_runs :: "env \<Rightarrow> api_object list \<Rightarrow> deploy_metrics" where
  "deploy_of_runs e cd_runs =
     (let durations = deploy_durations e cd_runs;
          avg_duration = average durations
      in \<lparr>deploy_avg_duration_minutes = rounded_or_none avg_duration\<rparr>)"

definition collect_deploy_duration_metrics ::
  "env \<Rightarrow> collector \<Rightarrow> exchange list \<Rightarrow> (error + deploy_metrics) \<times> exchange list" where
  "collect_deploy_duration_metrics e self tr =
     (case get_workflow_runs e self ''CD - Azure Web App'' tr of
        (Inl err, tr') \<Rightarrow> (Inl err, tr')
      | (Inr cd_runs, tr') \<Rightarrow> (Inr (deploy_of_runs e cd_runs), tr'))"

subsection \<open>collect\_all\_metrics and main\<close>

text \<open>
  The dictionary display is evaluated entry by entry, in the order written; the first
  aggregation that raises ends the evaluation.
\<close>

definition collect_all_metrics ::
  "env \<Rightarrow> collector \<Rightarrow> exchange list \<Rightarrow> (error + all_metrics) \<times> exchange list" where
  "collect_all_metrics e self tr =
     (let stamp = isoformat e (utcnow e tr) in
      case collect_dora_metrics e self tr of
        (Inl err, t1) \<Rightarrow> (Inl err, t1)
      | (Inr d, t1) \<Rightarrow>
      (case collect_pr_metrics e self t1 of
        (Inl err, t2) \<Rightarrow> (Inl err, t2)
      | (Inr p, t2) \<Rightarrow>
      (case collect_ci_metrics e self t2 of
        (Inl err, t3) \<Rightarrow> (Inl err, t3)
      | (Inr c, t3) \<Rightarrow>
      (case collect_deploy_duration_metrics e self t3 of
        (Inl err, t4) \<Rightarrow> (Inl err, t4)
      | (Inr h, t4) \<Rightarrow>
      (case collect_security_metrics e self t4 of
        (Inl err, t5) \<Rightarrow> (Inl err, t5)
      | (Inr s, t5) \<Rightarrow>
      (case collect_dependabot_metrics e self t5 of
        (Inl err, t6) \<Rightarrow> (Inl err, t6)
      | (Inr b, t6) \<Rightarrow>
          (Inr \<lparr>generated_at = stamp,
                report_window_days = window_days self,
                repository = repo self,
                dora = d,
                pull_requests = p,
                ci_health = c,
                deploy_health = h,
                security = s,
                dependabot = b\<rparr>,
           t6)))))))"

text \<open>
  The process's world: the exchanges with the API, the directories and files of the
  working directory, and the lines printed. A file holds the report that was dumped
  into it. \<open>makedirs\<close> and \<open>open\<close> are taken to succeed.
\<close>

record world =
  exchanges :: "exchange list"
  dirs :: "string set"
  files :: "string \<Rightarrow> all_metrics option"
  printed :: "printed_line list"

definition main :: "env \<Rightarrow> world \<Rightarrow> (error + unit) \<times> world" where
  "main e w =
     (case init e of
        Inl err \<Rightarrow> (Inl err, w)
      | Inr collector \<Rightarrow>
          (case collect_all_metrics e collector (exchanges w) of
             (Inl err, tr') \<Rightarrow> (Inl err, w\<lparr>exchanges := tr'\<rparr>)
           | (Inr metrics, tr') \<Rightarrow>
               (Inr (),
                w\<lparr>exchanges := tr',
                  dirs := insert ''site'' (dirs w),
                  files := (files w)(''site/metrics.json'' \<mapsto> metrics),
                  printed := printed w @
                    [Line ''Metrics collected and written to site/metrics.json'',
                     Dump metrics]\<rparr>)))"

section \<open>Reference definitions and example inputs\<close>

text \<open>
  The median of a list of numbers as mathematics has it: the middle element of the
  sorted list, or the mean of the two middle elements when the length is even.
\<close>

definition mathematical_median :: "real list \<Rightarrow> real" where
  "mathematical_median xs =
     (let s = sort xs; n = length xs
      in if even n then (s ! (n div 2 - 1) + s ! (n div 2)) / 2 else s ! (n div 2))"

text \<open>
  The recovery time as the specification words it: in the runs ordered by \<open>created_at\<close>,
  take the first failed run, then the first successful run after it; the value is the
  time from the one to the other in hours, and \<open>None\<close> when either is missing.
\<close>

definition recovery_time_spec :: "env \<Rightarrow> api_object list \<Rightarrow> real option" where
  "recovery_time_spec e runs =
     (case dropWhile (\<lambda>r. conclusion r \<noteq> Some ''failure'') (sort_key created_at runs) of
        [] \<Rightarrow> None
      | failed # later \<Rightarrow>
          (case List.find (\<lambda>r. conclusion r = Some ''success'') later of
             None \<Rightarrow> None
           | Some ok \<Rightarrow>
               Some ((parse_datetime e (created_at ok) - parse_datetime e (created_at failed))
                     / 3600)))"

text \<open>A failed run with a successful run somewhere after it.\<close>

definition failed_then_successful :: "api_object list \<Rightarrow> bool" where
  "failed_then_successful s =
     (\<exists>i j. i < j \<and> j < length s
        \<and> conclusion (s ! i) = Some ''failure'' \<and> conclusion (s ! j) = Some ''success'')"

text \<open>
  Words for the exchanges of a paginated fetch: a full page has 100 items or more; the
  items of an outcome; a list of exchanges in which every outcome is what the API
  answers at that point; and the request for page \<open>k\<close>.
\<close>

definition full_page :: "http_outcome \<Rightarrow> bool" where
  "full_page out = (case out of Body js \<Rightarrow> length js \<ge> 100 | ErrorStatus c \<Rightarrow> False)"

definition items_of :: "http_outcome \<Rightarrow> api_object list" where
  "items_of out = (case out of Body js \<Rightarrow> js | ErrorStatus c \<Rightarrow> [])"

fun answered :: "env \<Rightarrow> exchange list \<Rightarrow> exchange list \<Rightarrow> bool" where
  "answered e tr [] = True"
| "answered e tr (x # xs) = (snd x = respond e tr (fst x) \<and> answered e (tr @ [x]) xs)"

definition page_request :: "collector \<Rightarrow> string \<Rightarrow> params \<Rightarrow> nat \<Rightarrow> request" where
  "page_request self endpoint ps k =
     (base_url @ endpoint, headers self,
      AList.update ''page'' (PInt (int k)) (AList.update ''per_page'' (PInt 100) ps))"

text \<open>
  Words for failure: an outcome with an error status; exchanges without one; and a
  call that either returns after exchanges without an error status, or raises
  \<open>HTTPError\<close> for the error status of its last exchange, the ones before it being
  without one.
\<close>

definition is_error_status :: "http_outcome \<Rightarrow> bool" where
  "is_error_status out = (case out of ErrorStatus c \<Rightarrow> True | Body js \<Rightarrow> False)"

definition clean :: "exchange list \<Rightarrow> bool" where
  "clean new = (\<forall>x \<in> set new. \<not> is_error_status (snd x))"

definition stops_at_error :: "exchange list \<Rightarrow> (error + 'a) \<times> exchange list \<Rightarrow> bool" where
  "stops_at_error tr r =
     (\<exists>new. snd r = tr @ new
        \<and> (case fst r of
             Inr v \<Rightarrow> clean new
           | Inl err \<Rightarrow> new \<noteq> [] \<and> clean (butlast new)
                        \<and> (\<exists>c. snd (last new) = ErrorStatus c \<and> err = HTTPError c)))"

text \<open>A workflow run that started and ended at its creation time, and a pull request.\<close>

definition example_time :: string where
  "example_time = ''2024-01-01T00:00:00Z''"

definition example_run :: "string option \<Rightarrow> string \<Rightarrow> api_object" where
  "example_run c t =
     \<lparr>name = Some ''CD - Azure Web App'', conclusion = c, created_at = t,
      run_started_at = Some t, updated_at = Some t, merged_at = None, user_login = None\<rparr>"

definition example_pull :: "string \<Rightarrow> string \<Rightarrow> api_object" where
  "example_pull t m =
     \<lparr>name = None, conclusion = None, created_at = t,
      run_started_at = None, updated_at = None, merged_at = Some m,
      user_login = Some ''dependabot[bot]''\<rparr>"

text \<open>
  A world for the examples: the API's answers are given, the clock and the library
  functions are simple stand-ins, and the environment has no variable set. Then five
  ways for the API to answer, and an empty working directory.
\<close>

definition example_env :: "(exchange list \<Rightarrow> request \<Rightarrow> http_outcome) \<Rightarrow> env" where
  "example_env answer =
     \<lparr>respond = answer,
      utcnow = (\<lambda>tr. 1706659200 + real (length tr)),
      fromisoformat = (\<lambda>s. 0),
      strftime_ymd = (\<lambda>t. ''2024-01-01''),
      isoformat = (\<lambda>t. ''2024-01-31T00:00:00+00:00''),
      int_of_str = (\<lambda>s. if s = ''30'' then Some 30 else None),
      environ = (\<lambda>key. None)\<rparr>"

definition example_collector :: collector where
  "example_collector = \<lparr>token = ''t'', repo = ''o/r'', window_days = 30\<rparr>"

definition short_second :: "exchange list \<Rightarrow> request \<Rightarrow> http_outcome" where
  "short_second tr rq =
     (if length tr = 0 then Body (replicate 100 (example_pull example_time example_time))
      else Body [example_pull example_time example_time])"

definition always_full :: "exchange list \<Rightarrow> request \<Rightarrow> http_outcome" where
  "always_full tr rq = Body (replicate 100 (example_pull example_time example_time))"

definition fails_second :: "exchange list \<Rightarrow> request \<Rightarrow> http_outcome" where
  "fails_second tr rq =
     (if length tr = 0 then Body (replicate 100 (example_pull example_time example_time))
      else ErrorStatus 503)"

definition fails_third :: "exchange list \<Rightarrow> request \<Rightarrow> http_outcome" where
  "fails_third tr rq = (if length tr = 2 then ErrorStatus 503 else Body [])"

definition empty_pages :: "exchange list \<Rightarrow> request \<Rightarrow> http_outcome" where
  "empty_pages tr rq = Body []"

definition example_world :: world where
  "example_world = \<lparr>exchanges = [], dirs = {}, files = (\<lambda>path. None), printed = []\<rparr>"

section \<open>Properties of the calculator service\<close>

text \<open>
  C1. For all numbers \<open>a\<close> and \<open>b\<close>, \<open>divide(a, b)\<close> fails with \<open>DivisionByZeroError\<close>
  carrying the message "Division by zero is not allowed" when \<open>b = 0\<close>, and returns
  \<open>a / b\<close> otherwise; no call of another operation of the module fails.
\<close>

theorem divide_only_failure:
  "(b = 0 \<longrightarrow> divide_op a b = Inl (DivisionByZeroError ''Division by zero is not allowed''))
   \<and> (b \<noteq> 0 \<longrightarrow> divide_op a b = Inr (a / b))
   \<and> (\<forall>e. call f x y = Inl e \<longrightarrow> f = Divide \<and> y = 0)"
proof (intro conjI allI impI)
  fix e assume "call f x y = Inl e"
  then show "f = Divide" by (cases f) simp_all
  with \<open>call f x y = Inl e\<close> show "y = 0"
    by (simp add: divide_op_def split: if_splits)
qed (simp_all add: divide_op_def default_message_def)

theorem divide_only_failure_witness:
  "divide_op 10 0 = Inl (DivisionByZeroError ''Division by zero is not allowed'')
   \<and> divide_op 10 4 = Inr (5 / 2)
   \<and> call Divide 10 0 = Inl (DivisionByZeroError ''Division by zero is not allowed'')"
  using divide_only_failure [of 0 10 Divide 10 0] divide_only_failure [of 4 10 Divide 10 0]
  by (simp add: divide_op_def default_message_def)

text \<open>
  C8. For all numbers \<open>a\<close> and \<open>b\<close>, \<open>add(a, b)\<close> is \<open>a + b\<close>, and \<open>add\<close> is commutative.
\<close>

theorem add_sum_commutative:
  "add a b = a + b \<and> add a b = add b a"
  by (simp add: add_def)


section \<open>Properties of the metrics collector\<close>

subsection \<open>Rounding\<close>

lemma round_half_even_lower: "of_int n \<le> x \<Longrightarrow> n \<le> round_half_even x"
  unfolding round_half_even_def Let_def
  by (auto simp: le_floor_iff) linarith+

lemma round_half_even_upper: "x \<le> of_int n \<Longrightarrow> round_half_even x \<le> n"
  unfolding round_half_even_def Let_def
  by (auto simp: floor_le_iff)





lemma round2_bounds: "0 \<le> x \<Longrightarrow> x \<le> 100 \<Longrightarrow> 0 \<le> round2 x \<and> round2 x \<le> 100"
proof -
  assume a: "0 \<le> x" "x \<le> 100"
  have "of_int 0 \<le> x * 100" using a by simp
  then have l: "0 \<le> round_half_even (x * 100)" by (rule round_half_even_lower)
  have "x * 100 \<le> of_int 10000" using a by simp
  then have u: "round_half_even (x * 100) \<le> 10000" by (rule round_half_even_upper)
  from l u show ?thesis by (simp add: round2_def)
qed

subsection \<open>Rates and counts\<close>

lemma count_le: "count_conclusion ''success'' runs + count_conclusion ''failure'' runs \<le> length runs"
  unfolding count_conclusion_def by (induction runs) auto

lemma count_eq:
  "(count_conclusion ''success'' runs + count_conclusion ''failure'' runs = length runs)
   = (\<forall>r \<in> set runs. conclusion r = Some ''success'' \<or> conclusion r = Some ''failure'')"
proof (induction runs)
  case Nil
  show ?case by (simp add: count_conclusion_def)
next
  case (Cons r runs)
  have le: "count_conclusion ''success'' runs + count_conclusion ''failure'' runs \<le> length runs"
    by (rule count_le)
  show ?case
    using Cons.IH le by (auto simp: count_conclusion_def)
qed

lemma rate_bounds:
  "k \<le> n \<Longrightarrow> 0 \<le> (if n > 0 then real k / real n * 100 else 0)
     \<and> (if n > 0 then real k / real n * 100 else 0) \<le> 100"
  by (auto simp: field_simps)


text \<open>
  C10. For every list of workflow runs, the report of \<open>collect_dora_metrics\<close> has
  \<open>deployments_successful + deployments_failed \<le> deployments_total\<close>, with equality exactly
  when every run's conclusion is \<open>success\<close> or \<open>failure\<close>, and its
  \<open>change_failure_rate_percent\<close> lies between 0 and 100.
\<close>

theorem dora_counts_and_rate_range:
  "deployments_successful (dora_of_runs e cd_runs) + deployments_failed (dora_of_runs e cd_runs)
     \<le> deployments_total (dora_of_runs e cd_runs)
   \<and> ((deployments_successful (dora_of_runs e cd_runs) + deployments_failed (dora_of_runs e cd_runs)
         = deployments_total (dora_of_runs e cd_runs))
        = (\<forall>r \<in> set cd_runs. conclusion r = Some ''success'' \<or> conclusion r = Some ''failure''))
   \<and> 0 \<le> change_failure_rate_percent (dora_of_runs e cd_runs)
   \<and> change_failure_rate_percent (dora_of_runs e cd_runs) \<le> 100"
proof -
  have f: "count_conclusion ''failure'' cd_runs \<le> length cd_runs"
    using count_le [of cd_runs] by simp
  have b: "0 \<le> round2 (if length cd_runs > 0
              then real (count_conclusion ''failure'' cd_runs) / real (length cd_runs) * 100 else 0)
        \<and> round2 (if length cd_runs > 0
              then real (count_conclusion ''failure'' cd_runs) / real (length cd_runs) * 100 else 0) \<le> 100"
    using rate_bounds [OF f] by (intro round2_bounds) simp_all
  show ?thesis
    using count_le [of cd_runs] count_eq [of cd_runs] b
    by (simp add: dora_of_runs_def Let_def)
qed

theorem dora_counts_and_rate_range_witness:
  "\<forall>e.
     deployments_successful (dora_of_runs e [example_run (Some ''success'') example_time,
        example_run (Some ''failure'') example_time]) = 1
   \<and> deployments_failed (dora_of_runs e [example_run (Some ''success'') example_time,
        example_run (Some ''failure'') example_time]) = 1
   \<and> deployments_total (dora_of_runs e [example_run (Some ''success'') example_time,
        example_run (Some ''failure'') example_time]) = 2
   \<and> change_failure_rate_percent (dora_of_runs e [example_run (Some ''success'') example_time,
        example_run (Some ''failure'') example_time]) = 50
   \<and> deployments_successful (dora_of_runs e [example_run None example_time])
       + deployments_failed (dora_of_runs e [example_run None example_time])
       < deployments_total (dora_of_runs e [example_run None example_time])"
proof
  fix e
  show "deployments_successful (dora_of_runs e [example_run (Some ''success'') example_time,
        example_run (Some ''failure'') example_time]) = 1
   \<and> deployments_failed (dora_of_runs e [example_run (Some ''success'') example_time,
        example_run (Some ''failure'') example_time]) = 1
   \<and> deployments_total (dora_of_runs e [example_run (Some ''success'') example_time,
        example_run (Some ''failure'') example_time]) = 2
   \<and> change_failure_rate_percent (dora_of_runs e [example_run (Some ''success'') example_time,
        example_run (Some ''failure'') example_time]) = 50
   \<and> deployments_successful (dora_of_runs e [example_run None example_time])
       + deployments_failed (dora_of_runs e [example_run None example_time])
       < deployments_total (dora_of_runs e [example_run None example_time])"
    using dora_counts_and_rate_range [of e "[example_run (Some ''success'') example_time,
        example_run (Some ''failure'') example_time]"]
      dora_counts_and_rate_range [of e "[example_run None example_time]"]
    by (simp add: dora_of_runs_def count_conclusion_def example_run_def round2_def
        round_half_even_def Let_def)
qed

subsection \<open>The median proxy\<close>

lemma median_le:
  assumes "xs \<noteq> []"
  shows "mathematical_median xs \<le> sort xs ! (length xs div 2)"
proof -
  let ?s = "sort xs" and ?n = "length xs"
  have n: "0 < ?n" using assms by simp
  have "?s ! (?n div 2 - 1) \<le> ?s ! (?n div 2)"
    by (rule sorted_nth_mono) (use n in simp_all)
  then show ?thesis by (simp add: mathematical_median_def Let_def)
qed

text \<open>
  C5. For every non-empty list of lead times, the median proxy is the element at index
  \<open>n div 2\<close> of the sorted list. It is never below the mathematical median and agrees with
  it on lists of odd length; on \<open>[1, 2, 3, 4]\<close> it is the element at index 2, the value 3,
  where the mathematical median is 2.5.
\<close>

theorem median_upper_middle:
  "(lead_times \<noteq> [] \<longrightarrow>
      median_lead_time lead_times = Some (sort lead_times ! (length lead_times div 2))
      \<and> mathematical_median lead_times \<le> sort lead_times ! (length lead_times div 2)
      \<and> (odd (length lead_times) \<longrightarrow>
           median_lead_time lead_times = Some (mathematical_median lead_times)))
   \<and> median_lead_time [1, 2, 3, 4] = Some ([1, 2, 3, 4] ! 2)
   \<and> median_lead_time [1, 2, 3, 4] = Some 3
   \<and> mathematical_median [1, 2, 3, 4] = 5 / 2"
  using median_le [of lead_times]
  by (simp add: median_lead_time_def mathematical_median_def Let_def)

theorem median_upper_middle_witness:
  "median_lead_time [4, 1, 3, 2] = Some (sort [4, 1, 3, 2] ! (length [4, 1, 3, 2 :: real] div 2))
   \<and> median_lead_time [4, 1, 3, 2] = Some 3
   \<and> mathematical_median [4, 1, 3, 2] \<le> 3
   \<and> median_lead_time [5, 1, 3] = Some (mathematical_median [5, 1, 3])"
  using median_upper_middle [of "[4, 1, 3, 2]"] median_upper_middle [of "[5, 1, 3]"]
  by (simp add: mathematical_median_def)

subsection \<open>Zero and absent values\<close>

lemma rounded_or_none_None: "(rounded_or_none v = None) = (v = None \<or> v = Some 0)"
  by (simp add: rounded_or_none_def split: option.splits)

text \<open>
  C9. Each of the report fields \<open>mttr_hours\<close>, \<open>pr_lead_time_avg_hours\<close>,
  \<open>pr_lead_time_median_hours\<close>, \<open>ci_avg_duration_minutes\<close> and
  \<open>deploy_avg_duration_minutes\<close> is \<open>None\<close> exactly when the value computed for it is
  \<open>None\<close> or is 0: a computed zero is reported as \<open>None\<close>, as absent data is.
\<close>

theorem zero_reported_as_none:
  "((mttr_hours (dora_of_runs e cd_runs) = None)
      = (mttr_proxy e cd_runs = None \<or> mttr_proxy e cd_runs = Some 0))
   \<and> ((pr_lead_time_avg_hours (pr_of_pulls e window_start prs) = None)
      = (average (lead_times_of e (merged_prs_of e window_start prs)) = None
         \<or> average (lead_times_of e (merged_prs_of e window_start prs)) = Some 0))
   \<and> ((pr_lead_time_median_hours (pr_of_pulls e window_start prs) = None)
      = (median_lead_time (lead_times_of e (merged_prs_of e window_start prs)) = None
         \<or> median_lead_time (lead_times_of e (merged_prs_of e window_start prs)) = Some 0))
   \<and> ((ci_avg_duration_minutes (ci_of_runs e ci_runs) = None)
      = (average (ci_durations e ci_runs) = None \<or> average (ci_durations e ci_runs) = Some 0))
   \<and> ((deploy_avg_duration_minutes (deploy_of_runs e cd_runs) = None)
      = (average (deploy_durations e cd_runs) = None
         \<or> average (deploy_durations e cd_runs) = Some 0))"
  by (simp add: dora_of_runs_def pr_of_pulls_def ci_of_runs_def deploy_of_runs_def Let_def
      rounded_or_none_None)

theorem zero_reported_as_none_witness:
  "\<forall>e.
     mttr_proxy e [example_run (Some ''failure'') example_time,
                   example_run (Some ''success'') example_time] = Some 0
   \<and> mttr_hours (dora_of_runs e [example_run (Some ''failure'') example_time,
                   example_run (Some ''success'') example_time]) = None
   \<and> average (lead_times_of e (merged_prs_of e (parse_datetime e example_time)
                 [example_pull example_time example_time])) = Some 0
   \<and> pr_lead_time_avg_hours (pr_of_pulls e (parse_datetime e example_time)
                 [example_pull example_time example_time]) = None
   \<and> median_lead_time (lead_times_of e (merged_prs_of e (parse_datetime e example_time)
                 [example_pull example_time example_time])) = Some 0
   \<and> pr_lead_time_median_hours (pr_of_pulls e (parse_datetime e example_time)
                 [example_pull example_time example_time]) = None
   \<and> average (ci_durations e [example_run (Some ''success'') example_time]) = Some 0
   \<and> ci_avg_duration_minutes (ci_of_runs e [example_run (Some ''success'') example_time]) = None
   \<and> average (deploy_durations e [example_run (Some ''success'') example_time]) = Some 0
   \<and> deploy_avg_duration_minutes
        (deploy_of_runs e [example_run (Some ''success'') example_time]) = None"
proof
  fix e
  have m: "mttr_proxy e [example_run (Some ''failure'') example_time,
                   example_run (Some ''success'') example_time] = Some 0"
    by (simp add: mttr_proxy_def example_run_def)
  have l: "lead_times_of e (merged_prs_of e (parse_datetime e example_time)
                 [example_pull example_time example_time]) = [0]"
    by (simp add: lead_times_of_def merged_prs_of_def merged_in_window_def lead_time_def
        example_pull_def example_time_def List.map_filter_simps)
  have c: "ci_durations e [example_run (Some ''success'') example_time] = [0]"
    by (simp add: ci_durations_def duration_def example_run_def example_time_def
        List.map_filter_simps)
  have d: "deploy_durations e [example_run (Some ''success'') example_time] = [0]"
    by (simp add: deploy_durations_def duration_def example_run_def example_time_def
        List.map_filter_simps)
  show "mttr_proxy e [example_run (Some ''failure'') example_time,
                   example_run (Some ''success'') example_time] = Some 0
   \<and> mttr_hours (dora_of_runs e [example_run (Some ''failure'') example_time,
                   example_run (Some ''success'') example_time]) = None
   \<and> average (lead_times_of e (merged_prs_of e (parse_datetime e example_time)
                 [example_pull example_time example_time])) = Some 0
   \<and> pr_lead_time_avg_hours (pr_of_pulls e (parse_datetime e example_time)
                 [example_pull example_time example_time]) = None
   \<and> median_lead_time (lead_times_of e (merged_prs_of e (parse_datetime e example_time)
                 [example_pull example_time example_time])) = Some 0
   \<and> pr_lead_time_median_hours (pr_of_pulls e (parse_datetime e example_time)
                 [example_pull example_time example_time]) = None
   \<and> average (ci_durations e [example_run (Some ''success'') example_time]) = Some 0
   \<and> ci_avg_duration_minutes (ci_of_runs e [example_run (Some ''success'') example_time]) = None
   \<and> average (deploy_durations e [example_run (Some ''success'') example_time]) = Some 0
   \<and> deploy_avg_duration_minutes
        (deploy_of_runs e [example_run (Some ''success'') example_time]) = None"
    using zero_reported_as_none [of e "[example_run (Some ''failure'') example_time,
                   example_run (Some ''success'') example_time]" "parse_datetime e example_time"
                 "[example_pull example_time example_time]"
                 "[example_run (Some ''success'') example_time]"]
          zero_reported_as_none [of e "[example_run (Some ''success'') example_time]"
                 "parse_datetime e example_time" "[]"
                 "[example_run (Some ''success'') example_time]"]
    by (simp add: m l c d average_def median_lead_time_def)
qed

subsection \<open>The recovery time\<close>

lemma next_success_find:
  "next_success e run rest =
     (case List.find (\<lambda>r. conclusion r = Some ''success'') rest of
        None \<Rightarrow> None
      | Some ok \<Rightarrow>
          Some ((parse_datetime e (created_at ok) - parse_datetime e (created_at run)) / 3600))"
  by (induction rest) auto

lemma next_success_None:
  "(next_success e run rest = None) = (\<forall>r \<in> set rest. conclusion r \<noteq> Some ''success'')"
  by (induction rest) auto

lemma mttr_scan_no_success:
  "\<forall>r \<in> set rest. conclusion r \<noteq> Some ''success'' \<Longrightarrow> mttr_scan e rest = None"
proof (induction rest)
  case Nil
  show ?case by simp
next
  case (Cons r rest)
  then have "next_success e r rest = None" by (simp add: next_success_None)
  with Cons show ?case by simp
qed

lemma mttr_scan_spec:
  "mttr_scan e s =
     (case dropWhile (\<lambda>r. conclusion r \<noteq> Some ''failure'') s of
        [] \<Rightarrow> None
      | failed # later \<Rightarrow>
          (case List.find (\<lambda>r. conclusion r = Some ''success'') later of
             None \<Rightarrow> None
           | Some ok \<Rightarrow>
               Some ((parse_datetime e (created_at ok) - parse_datetime e (created_at failed))
                     / 3600)))"
proof (induction s)
  case Nil
  show ?case by simp
next
  case (Cons r s)
  show ?case
  proof (cases "conclusion r = Some ''failure''")
    case False
    with Cons show ?thesis by simp
  next
    case True
    show ?thesis
    proof (cases "next_success e r s")
      case (Some m)
      with True show ?thesis by (simp add: next_success_find)
    next
      case None
      then have "mttr_scan e s = None"
        by (simp add: next_success_None mttr_scan_no_success)
      with True None show ?thesis by (simp add: next_success_find)
    qed
  qed
qed

lemma pair_Cons:
  "failed_then_successful (r # s) =
     ((conclusion r = Some ''failure'' \<and> (\<exists>x \<in> set s. conclusion x = Some ''success''))
      \<or> failed_then_successful s)"
proof
  assume "failed_then_successful (r # s)"
  then obtain i j where ij: "i < j" "j < Suc (length s)"
      "conclusion ((r # s) ! i) = Some ''failure''" "conclusion ((r # s) ! j) = Some ''success''"
    by (auto simp: failed_then_successful_def)
  from ij(1) obtain j' where j': "j = Suc j'" by (cases j) auto
  show "(conclusion r = Some ''failure'' \<and> (\<exists>x \<in> set s. conclusion x = Some ''success''))
      \<or> failed_then_successful s"
  proof (cases i)
    case 0
    with ij j' have "conclusion r = Some ''failure''" "j' < length s"
      "conclusion (s ! j') = Some ''success''" by auto
    then show ?thesis by (metis nth_mem)
  next
    case (Suc i')
    with ij j' have "i' < j'" "j' < length s" "conclusion (s ! i') = Some ''failure''"
      "conclusion (s ! j') = Some ''success''" by auto
    then show ?thesis unfolding failed_then_successful_def by blast
  qed
next
  assume a: "(conclusion r = Some ''failure'' \<and> (\<exists>x \<in> set s. conclusion x = Some ''success''))
      \<or> failed_then_successful s"
  show "failed_then_successful (r # s)"
  proof (rule disjE [OF a])
    assume b: "conclusion r = Some ''failure'' \<and> (\<exists>x \<in> set s. conclusion x = Some ''success'')"
    then obtain j where "j < length s" "conclusion (s ! j) = Some ''success''"
      by (auto simp: in_set_conv_nth)
    with b have "0 < Suc j \<and> Suc j < length (r # s)
        \<and> conclusion ((r # s) ! 0) = Some ''failure''
        \<and> conclusion ((r # s) ! Suc j) = Some ''success''" by simp
    then show ?thesis unfolding failed_then_successful_def by blast
  next
    assume "failed_then_successful s"
    then obtain i j where "i < j" "j < length s" "conclusion (s ! i) = Some ''failure''"
      "conclusion (s ! j) = Some ''success''" by (auto simp: failed_then_successful_def)
    then have "Suc i < Suc j \<and> Suc j < length (r # s)
        \<and> conclusion ((r # s) ! Suc i) = Some ''failure''
        \<and> conclusion ((r # s) ! Suc j) = Some ''success''" by simp
    then show ?thesis unfolding failed_then_successful_def by blast
  qed
qed

lemma mttr_scan_None: "(mttr_scan e s = None) = (\<not> failed_then_successful s)"
proof (induction s)
  case Nil
  show ?case by (simp add: failed_then_successful_def)
next
  case (Cons r s)
  show ?case
  proof (cases "next_success e r s")
    case None
    then have "\<forall>x \<in> set s. conclusion x \<noteq> Some ''success''"
      by (simp add: next_success_None)
    with None Cons show ?thesis by (auto simp: pair_Cons)
  next
    case (Some m)
    then have "\<not> (\<forall>x \<in> set s. conclusion x \<noteq> Some ''success'')"
      using next_success_None [of e r s] by simp
    with Some Cons show ?thesis by (auto simp: pair_Cons)
  qed
qed

text \<open>
  C2. For every list of CD workflow runs, the recovery time that \<open>collect_dora_metrics\<close>
  computes is the time in hours from the first failed run to the first successful run
  after it, in ascending \<open>created_at\<close> order; it is \<open>None\<close> exactly when no failed run has
  a successful run after it. The report's \<open>mttr_hours\<close> is this value after
  \<open>round(_, 2) if _ else None\<close>.
\<close>

theorem mttr_first_failure_next_success:
  "mttr_proxy e cd_runs = recovery_time_spec e cd_runs
   \<and> (mttr_proxy e cd_runs = None)
       = (\<not> failed_then_successful (sort_key created_at cd_runs))
   \<and> mttr_hours (dora_of_runs e cd_runs) = rounded_or_none (recovery_time_spec e cd_runs)"
  by (simp add: mttr_proxy_def recovery_time_spec_def mttr_scan_spec [symmetric] mttr_scan_None
      dora_of_runs_def Let_def)


theorem mttr_first_failure_next_success_witness:
  "\<forall>e.
     mttr_proxy e [example_run (Some ''success'') ''2024-01-04T09:30:00Z'',
                   example_run (Some ''failure'') ''2024-01-03T12:00:00Z'',
                   example_run (Some ''failure'') ''2024-01-02T08:00:00Z'',
                   example_run (Some ''success'') ''2024-01-01T00:00:00Z'']
       = Some ((parse_datetime e ''2024-01-04T09:30:00Z''
                - parse_datetime e ''2024-01-02T08:00:00Z'') / 3600)
   \<and> recovery_time_spec e [example_run (Some ''success'') ''2024-01-04T09:30:00Z'',
                   example_run (Some ''failure'') ''2024-01-03T12:00:00Z'',
                   example_run (Some ''failure'') ''2024-01-02T08:00:00Z'',
                   example_run (Some ''success'') ''2024-01-01T00:00:00Z'']
       = Some ((parse_datetime e ''2024-01-04T09:30:00Z''
                - parse_datetime e ''2024-01-02T08:00:00Z'') / 3600)
   \<and> mttr_proxy e [example_run (Some ''failure'') ''2024-01-02T08:00:00Z'',
                   example_run (Some ''success'') ''2024-01-01T00:00:00Z''] = None
   \<and> \<not> failed_then_successful
         (sort_key created_at [example_run (Some ''failure'') ''2024-01-02T08:00:00Z'',
                   example_run (Some ''success'') ''2024-01-01T00:00:00Z''])"
proof
  fix e
  have a: "mttr_proxy e [example_run (Some ''success'') ''2024-01-04T09:30:00Z'',
                   example_run (Some ''failure'') ''2024-01-03T12:00:00Z'',
                   example_run (Some ''failure'') ''2024-01-02T08:00:00Z'',
                   example_run (Some ''success'') ''2024-01-01T00:00:00Z'']
       = Some ((parse_datetime e ''2024-01-04T09:30:00Z''
                - parse_datetime e ''2024-01-02T08:00:00Z'') / 3600)"
    by (simp add: mttr_proxy_def example_run_def)
  have b: "mttr_proxy e [example_run (Some ''failure'') ''2024-01-02T08:00:00Z'',
                   example_run (Some ''success'') ''2024-01-01T00:00:00Z''] = None"
    by (simp add: mttr_proxy_def example_run_def)
  show "mttr_proxy e [example_run (Some ''success'') ''2024-01-04T09:30:00Z'',
                   example_run (Some ''failure'') ''2024-01-03T12:00:00Z'',
                   example_run (Some ''failure'') ''2024-01-02T08:00:00Z'',
                   example_run (Some ''success'') ''2024-01-01T00:00:00Z'']
       = Some ((parse_datetime e ''2024-01-04T09:30:00Z''
                - parse_datetime e ''2024-01-02T08:00:00Z'') / 3600)
   \<and> recovery_time_spec e [example_run (Some ''success'') ''2024-01-04T09:30:00Z'',
                   example_run (Some ''failure'') ''2024-01-03T12:00:00Z'',
                   example_run (Some ''failure'') ''2024-01-02T08:00:00Z'',
                   example_run (Some ''success'') ''2024-01-01T00:00:00Z'']
       = Some ((parse_datetime e ''2024-01-04T09:30:00Z''
                - parse_datetime e ''2024-01-02T08:00:00Z'') / 3600)
   \<and> mttr_proxy e [example_run (Some ''failure'') ''2024-01-02T08:00:00Z'',
                   example_run (Some ''success'') ''2024-01-01T00:00:00Z''] = None
   \<and> \<not> failed_then_successful
         (sort_key created_at [example_run (Some ''failure'') ''2024-01-02T08:00:00Z'',
                   example_run (Some ''success'') ''2024-01-01T00:00:00Z''])"
    using mttr_first_failure_next_success [of e
            "[example_run (Some ''success'') ''2024-01-04T09:30:00Z'',
              example_run (Some ''failure'') ''2024-01-03T12:00:00Z'',
              example_run (Some ''failure'') ''2024-01-02T08:00:00Z'',
              example_run (Some ''success'') ''2024-01-01T00:00:00Z'']"]
          mttr_first_failure_next_success [of e
            "[example_run (Some ''failure'') ''2024-01-02T08:00:00Z'',
              example_run (Some ''success'') ''2024-01-01T00:00:00Z'']"]
          a b
    by simp
qed

subsection \<open>The paginated fetch\<close>

lemma page_of_update: "page_of (AList.update ''page'' (PInt k) ps) = k"
  by (simp add: page_of_def AList.update_conv')

lemma loop_pages:
  assumes "map_of ps ''page'' = Some (PInt (int k))" "1 \<le> k" "k + d = 10"
  shows "\<exists>new. snd (get_paginated_loop e self endpoint ps acc tr) = tr @ new
     \<and> new \<noteq> [] \<and> length new \<le> Suc d
     \<and> map fst new = map (\<lambda>i. (base_url @ endpoint, headers self,
                                AList.update ''page'' (PInt (int (k + i))) ps)) [0..<length new]
     \<and> answered e tr new
     \<and> (\<forall>x \<in> set (butlast new). full_page (snd x))
     \<and> (full_page (snd (last new)) \<longrightarrow> length new = Suc d)
     \<and> fst (get_paginated_loop e self endpoint ps acc tr) =
         (case snd (last new) of
            ErrorStatus c \<Rightarrow> Inl (HTTPError c)
          | Body js \<Rightarrow> Inr (acc @ concat (map (\<lambda>x. items_of (snd x)) new)))"
  using assms
proof (induction d arbitrary: ps k acc tr)
  case 0
  let ?rq = "(base_url @ endpoint, headers self, ps)"
  let ?out = "respond e tr ?rq"
  have k: "k = 10" using 0 by simp
  have triv: "AList.update ''page'' (PInt (int k)) ps = ps"
    using 0(1) by (simp add: AList.update_triv)
  have pg: "page_of ps = 10" using 0(1) k by (simp add: page_of_def)
  have "snd (get_paginated_loop e self endpoint ps acc tr) = tr @ [(?rq, ?out)]
     \<and> fst (get_paginated_loop e self endpoint ps acc tr) =
         (case ?out of ErrorStatus c \<Rightarrow> Inl (HTTPError c)
          | Body js \<Rightarrow> Inr (acc @ items_of ?out))"
    by (subst get_paginated_loop.simps, subst (2) get_paginated_loop.simps)
       (auto simp: get_def Let_def items_of_def page_of_update pg split: http_outcome.splits)
  then show ?case
    by (intro exI [of _ "[(?rq, ?out)]"]) (auto simp: triv split: http_outcome.splits)
next
  case (Suc d)
  let ?rq = "(base_url @ endpoint, headers self, ps)"
  let ?out = "respond e tr ?rq"
  let ?ps' = "AList.update ''page'' (PInt (page_of ps + 1)) ps"
  have pg: "page_of ps = int k" using Suc.prems(1) by (simp add: page_of_def)
  have triv: "AList.update ''page'' (PInt (int k)) ps = ps"
    using Suc.prems(1) by (simp add: AList.update_triv)
  show ?case
  proof (cases "full_page ?out")
    case False
    have "snd (get_paginated_loop e self endpoint ps acc tr) = tr @ [(?rq, ?out)]
       \<and> fst (get_paginated_loop e self endpoint ps acc tr) =
           (case ?out of ErrorStatus c \<Rightarrow> Inl (HTTPError c)
            | Body js \<Rightarrow> Inr (acc @ items_of ?out))"
      using False
      by (subst get_paginated_loop.simps, subst (2) get_paginated_loop.simps)
         (auto simp: get_def Let_def items_of_def full_page_def split: http_outcome.splits)
    with False show ?thesis
      by (intro exI [of _ "[(?rq, ?out)]"]) (auto simp: triv split: http_outcome.splits)
  next
    case True
    then obtain items where out: "?out = Body items" and len: "100 \<le> length items"
      by (auto simp: full_page_def split: http_outcome.splits)
    have ne: "items \<noteq> []" using len by auto
    have p': "map_of ?ps' ''page'' = Some (PInt (int (Suc k)))"
      by (simp add: AList.update_conv' pg)
    have small: "\<not> page_of ?ps' > 10"
      using Suc.prems by (simp add: page_of_update pg)
    have step: "get_paginated_loop e self endpoint ps acc tr =
        get_paginated_loop e self endpoint ?ps' (acc @ items) (tr @ [(?rq, ?out)])"
      using out len ne small
      by (subst get_paginated_loop.simps) (simp add: get_def Let_def)
    from Suc.IH [OF p', of "acc @ items" "tr @ [(?rq, ?out)]"] Suc.prems
    obtain new where new:
      "snd (get_paginated_loop e self endpoint ?ps' (acc @ items) (tr @ [(?rq, ?out)]))
         = (tr @ [(?rq, ?out)]) @ new"
      "new \<noteq> []" "length new \<le> Suc d"
      "map fst new = map (\<lambda>i. (base_url @ endpoint, headers self,
                                AList.update ''page'' (PInt (int (Suc k + i))) ?ps')) [0..<length new]"
      "answered e (tr @ [(?rq, ?out)]) new"
      "\<forall>x \<in> set (butlast new). full_page (snd x)"
      "full_page (snd (last new)) \<longrightarrow> length new = Suc d"
      "fst (get_paginated_loop e self endpoint ?ps' (acc @ items) (tr @ [(?rq, ?out)])) =
         (case snd (last new) of
            ErrorStatus c \<Rightarrow> Inl (HTTPError c)
          | Body js \<Rightarrow> Inr ((acc @ items) @ concat (map (\<lambda>x. items_of (snd x)) new)))"
      by auto
    have reqs: "map fst ((?rq, ?out) # new) =
        map (\<lambda>i. (base_url @ endpoint, headers self,
                   AList.update ''page'' (PInt (int (k + i))) ps)) [0..<length ((?rq, ?out) # new)]"
    proof -
      have "[0..<Suc (length new)] = 0 # map Suc [0..<length new]"
        by (simp add: upt_conv_Cons map_Suc_upt del: upt_Suc)
      then show ?thesis
        using new(4) by (simp add: triv AList.update_last ac_simps del: upt_Suc)
    qed
    show ?thesis
      using new(1,2,3,5,6,7,8) reqs True out
      by (intro exI [of _ "(?rq, ?out) # new"])
         (auto simp: step items_of_def split: http_outcome.splits)
  qed
qed

lemma length_concat_le:
  "\<forall>x \<in> set xs. length (f x) \<le> m \<Longrightarrow> length (concat (map f xs)) \<le> m * length xs"
  by (induction xs) auto

text \<open>
  C3. Whatever the API answers, \<open>_get_paginated\<close> requests the pages 1, 2, ... in order,
  at least one and at most ten. It goes on after a page exactly when that page has 100
  items or more and fewer than ten pages have been requested: every page but the last
  is full, and the last is not full (fewer than 100 items, or an error status) or is
  the tenth. It returns the items of the pages in order, or raises at an error status;
  when no page has more than 100 items it returns at most 1000.
\<close>

theorem paginated_fetch_stops:
  "\<exists>new. snd (get_paginated e self endpoint ps tr) = tr @ new
     \<and> new \<noteq> [] \<and> length new \<le> 10
     \<and> map fst new = map (page_request self endpoint ps) [1..<Suc (length new)]
     \<and> answered e tr new
     \<and> (\<forall>x \<in> set (butlast new). full_page (snd x))
     \<and> (full_page (snd (last new)) \<longrightarrow> length new = 10)
     \<and> fst (get_paginated e self endpoint ps tr) =
         (case snd (last new) of
            ErrorStatus c \<Rightarrow> Inl (HTTPError c)
          | Body js \<Rightarrow> Inr (concat (map (\<lambda>x. items_of (snd x)) new)))
     \<and> ((\<forall>x \<in> set new. length (items_of (snd x)) \<le> 100) \<longrightarrow>
          (\<forall>items. fst (get_paginated e self endpoint ps tr) = Inr items
             \<longrightarrow> length items \<le> 1000))"
proof -
  let ?ps1 = "AList.update ''page'' (PInt 1) (AList.update ''per_page'' (PInt 100) ps)"
  have p: "map_of ?ps1 ''page'' = Some (PInt (int 1))"
    by (simp add: AList.update_conv')
  from loop_pages [OF p, of 9 e self endpoint "[]" tr]
  obtain new where new:
    "snd (get_paginated_loop e self endpoint ?ps1 [] tr) = tr @ new"
    "new \<noteq> []" "length new \<le> 10"
    "map fst new = map (\<lambda>i. (base_url @ endpoint, headers self,
                               AList.update ''page'' (PInt (int (1 + i))) ?ps1)) [0..<length new]"
    "answered e tr new"
    "\<forall>x \<in> set (butlast new). full_page (snd x)"
    "full_page (snd (last new)) \<longrightarrow> length new = 10"
    "fst (get_paginated_loop e self endpoint ?ps1 [] tr) =
       (case snd (last new) of
          ErrorStatus c \<Rightarrow> Inl (HTTPError c)
        | Body js \<Rightarrow> Inr ([] @ concat (map (\<lambda>x. items_of (snd x)) new)))"
    by auto
  have reqs: "map fst new = map (page_request self endpoint ps) [1..<Suc (length new)]"
  proof -
    have "map (page_request self endpoint ps) [1..<Suc (length new)]
        = map (\<lambda>i. page_request self endpoint ps (Suc i)) [0..<length new]"
      using map_Suc_upt [of 0 "length new", symmetric] by (simp add: comp_def del: upt_Suc)
    then show ?thesis using new(4) by (simp add: page_request_def del: upt_Suc)
  qed
  have bound: "(\<forall>x \<in> set new. length (items_of (snd x)) \<le> 100) \<longrightarrow>
     length (concat (map (\<lambda>x. items_of (snd x)) new)) \<le> 1000"
  proof
    assume a: "\<forall>x \<in> set new. length (items_of (snd x)) \<le> 100"
    have "length (concat (map (\<lambda>x. items_of (snd x)) new)) \<le> 100 * length new"
      using a by (rule length_concat_le)
    with new(3) show "length (concat (map (\<lambda>x. items_of (snd x)) new)) \<le> 1000" by simp
  qed
  show ?thesis
    using new(1,2,3,5,6,7,8) reqs bound
    by (intro exI [of _ new]) (auto simp: get_paginated_def split: http_outcome.splits)
qed

lemmas fetch_defs = get_paginated_def get_paginated_loop.simps get_def Let_def page_of_def
  example_env_def

theorem paginated_fetch_stops_witness:
  "length (snd (get_paginated (example_env short_second) example_collector ''/repos/o/r/pulls''
              [(''state'', PStr ''open'')] [])) = 2
   \<and> fst (get_paginated (example_env short_second) example_collector ''/repos/o/r/pulls''
              [(''state'', PStr ''open'')] [])
       = Inr (replicate 100 (example_pull example_time example_time)
              @ [example_pull example_time example_time])
   \<and> map fst (snd (get_paginated (example_env short_second) example_collector
              ''/repos/o/r/pulls'' [(''state'', PStr ''open'')] []))
       = [(''https://api.github.com/repos/o/r/pulls'', headers example_collector,
           [(''state'', PStr ''open''), (''per_page'', PInt 100), (''page'', PInt 1)]),
          (''https://api.github.com/repos/o/r/pulls'', headers example_collector,
           [(''state'', PStr ''open''), (''per_page'', PInt 100), (''page'', PInt 2)])]
   \<and> length (snd (get_paginated (example_env always_full) example_collector ''/repos/o/r/pulls''
              [(''state'', PStr ''open'')] [])) = 10
   \<and> (\<exists>items. fst (get_paginated (example_env always_full) example_collector
              ''/repos/o/r/pulls'' [(''state'', PStr ''open'')] []) = Inr items
          \<and> length items = 1000)
   \<and> length (snd (get_paginated (example_env fails_second) example_collector ''/repos/o/r/pulls''
              [(''state'', PStr ''open'')] [])) = 2
   \<and> fst (get_paginated (example_env fails_second) example_collector ''/repos/o/r/pulls''
              [(''state'', PStr ''open'')] []) = Inl (HTTPError 503)"
proof -
  have a: "length (snd (get_paginated (example_env short_second) example_collector
              ''/repos/o/r/pulls'' [(''state'', PStr ''open'')] [])) = 2
   \<and> fst (get_paginated (example_env short_second) example_collector ''/repos/o/r/pulls''
              [(''state'', PStr ''open'')] [])
       = Inr (replicate 100 (example_pull example_time example_time)
              @ [example_pull example_time example_time])
   \<and> map fst (snd (get_paginated (example_env short_second) example_collector
              ''/repos/o/r/pulls'' [(''state'', PStr ''open'')] []))
       = [(''https://api.github.com/repos/o/r/pulls'', headers example_collector,
           [(''state'', PStr ''open''), (''per_page'', PInt 100), (''page'', PInt 1)]),
          (''https://api.github.com/repos/o/r/pulls'', headers example_collector,
           [(''state'', PStr ''open''), (''per_page'', PInt 100), (''page'', PInt 2)])]"
    by (simp add: fetch_defs short_second_def base_url_def)
  have b: "length (snd (get_paginated (example_env always_full) example_collector
              ''/repos/o/r/pulls'' [(''state'', PStr ''open'')] [])) = 10
   \<and> (\<exists>items. fst (get_paginated (example_env always_full) example_collector
              ''/repos/o/r/pulls'' [(''state'', PStr ''open'')] []) = Inr items
          \<and> length items = 1000)"
    by (simp add: fetch_defs always_full_def)
  have c: "length (snd (get_paginated (example_env fails_second) example_collector
              ''/repos/o/r/pulls'' [(''state'', PStr ''open'')] [])) = 2
   \<and> fst (get_paginated (example_env fails_second) example_collector ''/repos/o/r/pulls''
              [(''state'', PStr ''open'')] []) = Inl (HTTPError 503)"
    by (simp add: fetch_defs fails_second_def)
  from paginated_fetch_stops [of "example_env always_full" example_collector
      "''/repos/o/r/pulls''" "[(''state'', PStr ''open'')]" "[]"]
  have "length (snd (get_paginated (example_env always_full) example_collector
              ''/repos/o/r/pulls'' [(''state'', PStr ''open'')] [])) \<le> 10"
    by auto
  with a b c show ?thesis by simp
qed

subsection \<open>A failed request ends the run\<close>

lemma full_page_clean: "full_page out \<Longrightarrow> \<not> is_error_status out"
  by (simp add: full_page_def is_error_status_def split: http_outcome.splits)

lemma clean_append: "clean (xs @ ys) = (clean xs \<and> clean ys)"
  by (auto simp: clean_def)

lemma stops_get_paginated: "stops_at_error tr (get_paginated e self endpoint ps tr)"
proof -
  let ?ps1 = "AList.update ''page'' (PInt 1) (AList.update ''per_page'' (PInt 100) ps)"
  have p: "map_of ?ps1 ''page'' = Some (PInt (int 1))"
    by (simp add: AList.update_conv')
  from loop_pages [OF p, of 9 e self endpoint "[]" tr]
  obtain new where new:
    "snd (get_paginated_loop e self endpoint ?ps1 [] tr) = tr @ new"
    "new \<noteq> []"
    "\<forall>x \<in> set (butlast new). full_page (snd x)"
    "fst (get_paginated_loop e self endpoint ?ps1 [] tr) =
       (case snd (last new) of
          ErrorStatus c \<Rightarrow> Inl (HTTPError c)
        | Body js \<Rightarrow> Inr ([] @ concat (map (\<lambda>x. items_of (snd x)) new)))"
    by auto
  have bl: "clean (butlast new)"
    using new(3) by (auto simp: clean_def dest: full_page_clean)
  show ?thesis
  proof (cases "snd (last new)")
    case (ErrorStatus c)
    with new(1,2,4) bl show ?thesis
      unfolding stops_at_error_def get_paginated_def by auto
  next
    case (Body js)
    have "clean [last new]"
      using Body by (simp add: clean_def is_error_status_def)
    with bl have "clean (butlast new @ [last new])"
      by (simp add: clean_append)
    then have "clean new" using new(2) by simp
    with new(1,4) Body show ?thesis
      unfolding stops_at_error_def get_paginated_def by auto
  qed
qed

lemma stops_bind:
  assumes "stops_at_error tr r1"
    and "\<And>v. fst r1 = Inr v \<Longrightarrow> stops_at_error (snd r1) (k v (snd r1))"
  shows "stops_at_error tr
           (case r1 of (Inl err, tr') \<Rightarrow> (Inl err, tr') | (Inr v, tr') \<Rightarrow> k v tr')"
proof (cases r1)
  case (Pair res tr1)
  show ?thesis
  proof (cases res)
    case (Inl err)
    with Pair assms(1) show ?thesis by (simp add: stops_at_error_def)
  next
    case (Inr v)
    from assms(1) Pair Inr obtain n1 where n1: "tr1 = tr @ n1" "clean n1"
      by (auto simp: stops_at_error_def)
    from assms(2) [of v] Pair Inr have s2: "stops_at_error tr1 (k v tr1)" by simp
    then obtain n2 where n2: "snd (k v tr1) = tr1 @ n2"
      "case fst (k v tr1) of
             Inr v \<Rightarrow> clean n2
           | Inl err \<Rightarrow> n2 \<noteq> [] \<and> clean (butlast n2)
                        \<and> (\<exists>c. snd (last n2) = ErrorStatus c \<and> err = HTTPError c)"
      unfolding stops_at_error_def by blast
    have "snd (k v tr1) = tr @ (n1 @ n2)" using n1 n2 by simp
    moreover have "case fst (k v tr1) of
             Inr v \<Rightarrow> clean (n1 @ n2)
           | Inl err \<Rightarrow> n1 @ n2 \<noteq> [] \<and> clean (butlast (n1 @ n2))
                        \<and> (\<exists>c. snd (last (n1 @ n2)) = ErrorStatus c \<and> err = HTTPError c)"
      using n2(2) n1(2)
      by (cases "fst (k v tr1)") (auto simp: clean_append butlast_append)
    ultimately have "stops_at_error tr (k v tr1)"
      unfolding stops_at_error_def by blast
    with Pair Inr show ?thesis by simp
  qed
qed

lemma stops_return: "stops_at_error tr (Inr v, tr)"
  by (simp add: stops_at_error_def clean_def)

lemma stops_get_workflow_runs: "stops_at_error tr (get_workflow_runs e self workflow_name tr)"
  unfolding get_workflow_runs_def Let_def
  by (rule stops_bind [OF stops_get_paginated]) (rule stops_return)

lemma stops_dora: "stops_at_error tr (collect_dora_metrics e self tr)"
  unfolding collect_dora_metrics_def
  by (rule stops_bind [OF stops_get_workflow_runs]) (rule stops_return)

lemma stops_pr: "stops_at_error tr (collect_pr_metrics e self tr)"
  unfolding collect_pr_metrics_def Let_def
  by (rule stops_bind [OF stops_get_paginated]) (rule stops_return)

lemma stops_ci: "stops_at_error tr (collect_ci_metrics e self tr)"
  unfolding collect_ci_metrics_def
  by (rule stops_bind [OF stops_get_workflow_runs]) (rule stops_return)

lemma stops_security: "stops_at_error tr (collect_security_metrics e self tr)"
  unfolding collect_security_metrics_def
  by (rule stops_bind [OF stops_get_workflow_runs]) (rule stops_return)

lemma stops_deploy: "stops_at_error tr (collect_deploy_duration_metrics e self tr)"
  unfolding collect_deploy_duration_metrics_def
  by (rule stops_bind [OF stops_get_workflow_runs]) (rule stops_return)

lemma stops_dependabot: "stops_at_error tr (collect_dependabot_metrics e self tr)"
  unfolding collect_dependabot_metrics_def Let_def
  by (rule stops_bind [OF stops_get_paginated], rule stops_bind [OF stops_get_paginated])
     (rule stops_return)

lemma stops_all: "stops_at_error tr (collect_all_metrics e self tr)"
  unfolding collect_all_metrics_def Let_def
  by (rule stops_bind [OF stops_dora], rule stops_bind [OF stops_pr],
      rule stops_bind [OF stops_ci], rule stops_bind [OF stops_deploy],
      rule stops_bind [OF stops_security], rule stops_bind [OF stops_dependabot])
     (rule stops_return)

lemma failure_propagates:
  assumes "stops_at_error tr r" "snd r = tr @ new" "\<exists>x \<in> set new. is_error_status (snd x)"
  shows "clean (butlast new) \<and> (\<exists>c. snd (last new) = ErrorStatus c \<and> fst r = Inl (HTTPError c))"
proof -
  from assms(1) obtain n where n: "snd r = tr @ n"
    "case fst r of
       Inr v \<Rightarrow> clean n
     | Inl err \<Rightarrow> n \<noteq> [] \<and> clean (butlast n)
                  \<and> (\<exists>c. snd (last n) = ErrorStatus c \<and> err = HTTPError c)"
    unfolding stops_at_error_def by blast
  from n(1) assms(2) have eq: "n = new" by simp
  show ?thesis
  proof (cases "fst r")
    case (Inr v)
    with n(2) eq assms(3) show ?thesis by (auto simp: clean_def)
  next
    case (Inl err)
    with n(2) eq show ?thesis by auto
  qed
qed

lemma stops_prefix: "stops_at_error tr r \<Longrightarrow> \<exists>new. snd r = tr @ new"
  unfolding stops_at_error_def by blast

text \<open>
  C7. If a GET of the collection gets an error status, it is the last exchange of the
  run, no exchange before it got one, and \<open>collect_all_metrics\<close> raises the
  \<open>HTTPError\<close> for it; \<open>main\<close> then ends with that error and leaves the files, the
  directories and the output as they were: no report is written.
\<close>

theorem collection_failure_no_report:
  "(\<exists>new. snd (collect_all_metrics e self tr) = tr @ new
      \<and> ((\<exists>x \<in> set new. is_error_status (snd x)) \<longrightarrow>
           clean (butlast new)
           \<and> (\<exists>c. snd (last new) = ErrorStatus c
                  \<and> fst (collect_all_metrics e self tr) = Inl (HTTPError c))))
   \<and> (\<exists>new. exchanges (snd (main e w)) = exchanges w @ new
      \<and> ((\<exists>x \<in> set new. is_error_status (snd x)) \<longrightarrow>
           clean (butlast new)
           \<and> (\<exists>c. snd (last new) = ErrorStatus c \<and> fst (main e w) = Inl (HTTPError c))
           \<and> files (snd (main e w)) = files w
           \<and> dirs (snd (main e w)) = dirs w
           \<and> printed (snd (main e w)) = printed w))"
proof
  from stops_prefix [OF stops_all [of tr e self]]
  obtain new where new: "snd (collect_all_metrics e self tr) = tr @ new" by blast
  show "\<exists>new. snd (collect_all_metrics e self tr) = tr @ new
      \<and> ((\<exists>x \<in> set new. is_error_status (snd x)) \<longrightarrow>
           clean (butlast new)
           \<and> (\<exists>c. snd (last new) = ErrorStatus c
                  \<and> fst (collect_all_metrics e self tr) = Inl (HTTPError c)))"
    using new failure_propagates [OF stops_all [of tr e self] new] by blast
next
  show "\<exists>new. exchanges (snd (main e w)) = exchanges w @ new
      \<and> ((\<exists>x \<in> set new. is_error_status (snd x)) \<longrightarrow>
           clean (butlast new)
           \<and> (\<exists>c. snd (last new) = ErrorStatus c \<and> fst (main e w) = Inl (HTTPError c))
           \<and> files (snd (main e w)) = files w
           \<and> dirs (snd (main e w)) = dirs w
           \<and> printed (snd (main e w)) = printed w)"
  proof (cases "init e")
    case (Inl err)
    then have "main e w = (Inl err, w)" by (simp add: main_def)
    then show ?thesis by (intro exI [of _ "[]"]) simp
  next
    case (Inr collector)
    let ?r = "collect_all_metrics e collector (exchanges w)"
    from stops_prefix [OF stops_all [of "exchanges w" e collector]]
    obtain new where new: "snd ?r = exchanges w @ new" by blast
    note fp = failure_propagates [OF stops_all [of "exchanges w" e collector] new]
    show ?thesis
    proof (cases "fst ?r")
      case (Inl err)
      then have m: "main e w = (Inl err, w\<lparr>exchanges := snd ?r\<rparr>)"
        using Inr by (cases ?r) (simp add: main_def)
      show ?thesis
        using fp new Inl by (intro exI [of _ new]) (auto simp: m)
    next
      case (Inr metrics)
      note ok = this
      have "exchanges (snd (main e w)) = snd ?r"
        using \<open>init e = Inr collector\<close> ok by (cases ?r) (simp add: main_def)
      moreover have "\<not> (\<exists>x \<in> set new. is_error_status (snd x))"
        using fp ok by auto
      ultimately show ?thesis
        using new by (intro exI [of _ new]) simp
    qed
  qed
qed

lemmas eval_defs = main_def init_def environ_get_def collect_all_metrics_def
  collect_dora_metrics_def collect_pr_metrics_def collect_ci_metrics_def
  collect_security_metrics_def collect_dependabot_metrics_def
  collect_deploy_duration_metrics_def get_workflow_runs_def get_paginated_def
  get_paginated_loop.simps get_def Let_def example_env_def example_world_def

theorem collection_failure_no_report_witness:
  "fst (main (example_env fails_third) example_world) = Inl (HTTPError 503)
   \<and> length (exchanges (snd (main (example_env fails_third) example_world))) = 3
   \<and> snd (last (exchanges (snd (main (example_env fails_third) example_world))))
       = ErrorStatus 503
   \<and> files (snd (main (example_env fails_third) example_world)) = files example_world
   \<and> dirs (snd (main (example_env fails_third) example_world)) = dirs example_world
   \<and> printed (snd (main (example_env fails_third) example_world)) = printed example_world
   \<and> fst (main (example_env empty_pages) example_world) = Inr ()
   \<and> length (exchanges (snd (main (example_env empty_pages) example_world))) = 7
   \<and> files (snd (main (example_env empty_pages) example_world)) ''site/metrics.json'' \<noteq> None"
proof -
  have a: "fst (main (example_env fails_third) example_world) = Inl (HTTPError 503)
     \<and> length (exchanges (snd (main (example_env fails_third) example_world))) = 3
     \<and> snd (last (exchanges (snd (main (example_env fails_third) example_world))))
       = ErrorStatus 503"
    by (simp add: eval_defs fails_third_def)
  have b: "fst (main (example_env empty_pages) example_world) = Inr ()
   \<and> length (exchanges (snd (main (example_env empty_pages) example_world))) = 7
   \<and> files (snd (main (example_env empty_pages) example_world)) ''site/metrics.json'' \<noteq> None"
    by (simp add: eval_defs empty_pages_def)
  have c: "exchanges example_world = []" by (simp add: example_world_def)
  from collection_failure_no_report [of "example_env fails_third" example_collector "[]"
      example_world]
  obtain new where new:
    "exchanges (snd (main (example_env fails_third) example_world)) = exchanges example_world @ new"
    "(\<exists>x \<in> set new. is_error_status (snd x)) \<longrightarrow>
       files (snd (main (example_env fails_third) example_world)) = files example_world
       \<and> dirs (snd (main (example_env fails_third) example_world)) = dirs example_world
       \<and> printed (snd (main (example_env fails_third) example_world)) = printed example_world"
    by blast
  from new(1) a c have "new \<noteq> []" "snd (last new) = ErrorStatus 503" by auto
  then have "\<exists>x \<in> set new. is_error_status (snd x)"
    by (intro bexI [of _ "last new"]) (simp_all add: is_error_status_def)
  with new(2) a b show ?thesis by simp
qed

end
